theory Spec2Isabelle
  imports Complex_Main "HOL-Library.Word"
begin

section \<open>Dimension validation\<close>

text \<open>
  The module constants \<^verbatim>\<open>MIN_DIMENSION = 64\<close>, \<^verbatim>\<open>MAX_MEGAPIXELS = 4_000_000\<close>.
  Widths and heights are Python integers, hence unbounded \<^typ>\<open>int\<close>.
\<close>

definition MIN_DIMENSION :: int where
  "MIN_DIMENSION = 64"

definition MAX_MEGAPIXELS :: int where
  "MAX_MEGAPIXELS = 4000000"

text \<open>
  Python's built-in \<^verbatim>\<open>round\<close> with one argument: the nearest integer, an exact half
  going to the even neighbour. The argument is the exact value of the float.
\<close>

definition py_round :: "rat \<Rightarrow> int" where
  "py_round x =
     (let f = \<lfloor>x\<rfloor>; d = x - of_int f
      in if d < 1 / 2 then f
         else if 1 / 2 < d then f + 1
         else if even f then f else f + 1)"

text \<open>
  \<^verbatim>\<open>return round(value / 16) * 16\<close>.
  The quotient \<^verbatim>\<open>value / 16\<close> is a binary floating-point number; dividing by a power
  of two is exact as long as the integer fits the 53-bit significand, that is for
  \<open>\<bar>value\<bar> < 2 ^ 53\<close>. The definition computes the exact quotient, so it is the source
  function on that range; statements about arbitrary values carry the bound.
\<close>

definition round_to_multiple_of_16 :: "int \<Rightarrow> int" where
  "round_to_multiple_of_16 val = py_round (of_int val / 16) * 16"

text \<open>
  The messages that \<^verbatim>\<open>validate_dimensions\<close> appends are formatted strings; each
  constructor below stands for one of the seven message templates, carrying the numbers
  the template interpolates.
\<close>

datatype dimension_error =
    WidthBelowMinimum int
  | HeightBelowMinimum int
  | TotalPixelsExceedsMaximum int

datatype dimension_warning =
    WidthAdjusted int int
  | HeightAdjusted int int
  | WidthSetToMinimum
  | HeightSetToMinimum

definition validate_dimensions ::
  "int \<Rightarrow> int \<Rightarrow> int \<times> int \<times> dimension_error list \<times> dimension_warning list" where
  "validate_dimensions width height =
     (let errors = [];
          warnings = [];
          errors = (if width < MIN_DIMENSION
                    then errors @ [WidthBelowMinimum width] else errors);
          errors = (if height < MIN_DIMENSION
                    then errors @ [HeightBelowMinimum height] else errors);
          total_pixels = width * height;
          errors = (if total_pixels > MAX_MEGAPIXELS
                    then errors @ [TotalPixelsExceedsMaximum total_pixels] else errors);
          adjusted_width = width;
          adjusted_height = height;
          (adjusted_width, warnings) =
             (if width mod 16 \<noteq> 0
              then (let a = round_to_multiple_of_16 width
                    in (a, warnings @ [WidthAdjusted width a]))
              else (adjusted_width, warnings));
          (adjusted_height, warnings) =
             (if height mod 16 \<noteq> 0
              then (let a = round_to_multiple_of_16 height
                    in (a, warnings @ [HeightAdjusted height a]))
              else (adjusted_height, warnings));
          (adjusted_width, warnings) =
             (if adjusted_width < MIN_DIMENSION
              then (MIN_DIMENSION, warnings @ [WidthSetToMinimum])
              else (adjusted_width, warnings));
          (adjusted_height, warnings) =
             (if adjusted_height < MIN_DIMENSION
              then (MIN_DIMENSION, warnings @ [HeightSetToMinimum])
              else (adjusted_height, warnings))
      in (adjusted_width, adjusted_height, errors, warnings))"

section \<open>Strings and the built-ins the prompt builder relies on\<close>

text \<open>
  A Python \<^verbatim>\<open>str\<close> is modelled as a \<^typ>\<open>string\<close>; each \<^typ>\<open>char\<close> stands for the
  code point of the same number, so the model covers the code points below 256.
\<close>

text \<open>\<^verbatim>\<open>s.lstrip(chars)\<close>: drop every leading character that occurs in \<open>chars\<close>.\<close>

definition lstrip :: "string \<Rightarrow> string \<Rightarrow> string" where
  "lstrip chars s = dropWhile (\<lambda>c. c \<in> set chars) s"

text \<open>
  \<^verbatim>\<open>s[i:j]\<close> for \<open>0 \<le> i \<le> j\<close>: slicing never raises, a slice that runs past the end
  of the string is shorter or empty.
\<close>

definition slice :: "nat \<Rightarrow> nat \<Rightarrow> string \<Rightarrow> string" where
  "slice i j s = take (j - i) (drop i s)"

text \<open>\<^verbatim>\<open>sep.join(xs)\<close>.\<close>

fun join :: "string \<Rightarrow> string list \<Rightarrow> string" where
  "join sep [] = []"
| "join sep [x] = x"
| "join sep (x # y # ys) = x @ sep @ join sep (y # ys)"

text \<open>The decimal numeral of a natural number, as \<^verbatim>\<open>str(i)\<close> and \<^verbatim>\<open>f"{i}"\<close> give it.\<close>

fun str_nat :: "nat \<Rightarrow> string" where
  "str_nat n =
     (if n < 10 then [''0123456789'' ! n]
      else str_nat (n div 10) @ [''0123456789'' ! (n mod 10)])"

declare str_nat.simps [simp del]

subsection \<open>The built-in \<^verbatim>\<open>int(s, 16)\<close>\<close>

text \<open>
  Whitespace that \<^verbatim>\<open>int\<close> skips around the number: tab, line feed, vertical tab, form
  feed, carriage return and space, and the two further white-space code points below 256
  (next line and no-break space), which the conversion first turns into spaces.
\<close>

definition is_space :: "char \<Rightarrow> bool" where
  "is_space c \<longleftrightarrow>
     c \<in> set [CHR 0x09, CHR 0x0A, CHR 0x0B, CHR 0x0C, CHR 0x0D, CHR '' '',
              CHR 0x85, CHR 0xA0]"

definition hex_digit_value :: "char \<Rightarrow> int option" where
  "hex_digit_value c =
     map_of [(CHR ''0'', 0), (CHR ''1'', 1), (CHR ''2'', 2), (CHR ''3'', 3),
             (CHR ''4'', 4), (CHR ''5'', 5), (CHR ''6'', 6), (CHR ''7'', 7),
             (CHR ''8'', 8), (CHR ''9'', 9),
             (CHR ''a'', 10), (CHR ''b'', 11), (CHR ''c'', 12), (CHR ''d'', 13),
             (CHR ''e'', 14), (CHR ''f'', 15),
             (CHR ''A'', 10), (CHR ''B'', 11), (CHR ''C'', 12), (CHR ''D'', 13),
             (CHR ''E'', 14), (CHR ''F'', 15)] c"

text \<open>
  The digit scan: digits and single underscores between them; two underscores in a row
  or a trailing underscore are a syntax error. \<open>prev\<close> is the character read last.
  The result is the digits read and the unread rest of the string.
\<close>

fun scan_digits :: "string \<Rightarrow> char \<Rightarrow> int list \<Rightarrow> (int list \<times> string) option" where
  "scan_digits [] prev acc = (if prev = CHR ''_'' then None else Some (acc, []))"
| "scan_digits (c # cs) prev acc =
     (if c = CHR ''_''
      then (if prev = CHR ''_'' then None else scan_digits cs c acc)
      else (case hex_digit_value c of
              Some d \<Rightarrow> scan_digits cs c (acc @ [d])
            | None \<Rightarrow> (if prev = CHR ''_'' then None else Some (acc, c # cs))))"

text \<open>
  \<^verbatim>\<open>int(s, 16)\<close>; \<open>None\<close> is \<^verbatim>\<open>ValueError\<close>. In order: leading whitespace, an optional
  sign, an optional \<^verbatim>\<open>0x\<close> or \<^verbatim>\<open>0X\<close> prefix (which one underscore may follow), no
  underscore in front, at least one digit, trailing whitespace, and nothing else.
\<close>

definition py_int16 :: "string \<Rightarrow> int option" where
  "py_int16 s =
     (let t = dropWhile is_space s;
          (sign, t) = (case t of
                         c # r \<Rightarrow> if c = CHR ''+'' then (1, r)
                                  else if c = CHR ''-'' then (- 1, r)
                                  else (1, t)
                       | [] \<Rightarrow> (1, t));
          t = (case t of
                 z # x # r \<Rightarrow>
                   if z = CHR ''0'' \<and> (x = CHR ''x'' \<or> x = CHR ''X'')
                   then (case r of u # r' \<Rightarrow> if u = CHR ''_'' then r' else r | [] \<Rightarrow> r)
                   else t
               | _ \<Rightarrow> t)
      in if take 1 t = ''_'' then None
         else (case scan_digits t (CHR 0x00) [] of
                 None \<Rightarrow> None
               | Some (ds, rest) \<Rightarrow>
                   if ds = [] then None
                   else if dropWhile is_space rest \<noteq> [] then None
                   else Some (sign * foldl (\<lambda>a d. a * 16 + d) 0 ds)))"

section \<open>Prompt builder\<close>

text \<open>
  \<^verbatim>\<open>hex_to_color_name\<close>. The parameter is reassigned by \<^verbatim>\<open>hex_color.lstrip('#')\<close>;
  the three conversions sit in one \<^verbatim>\<open>try\<close> block whose handler returns the
  reassigned variable.
\<close>

definition hex_to_color_name :: "string \<Rightarrow> string" where
  "hex_to_color_name hex_color0 =
     (let hex_color = lstrip ''#'' hex_color0
      in case py_int16 (slice 0 2 hex_color) of
           None \<Rightarrow> hex_color
         | Some r \<Rightarrow>
        (case py_int16 (slice 2 4 hex_color) of
           None \<Rightarrow> hex_color
         | Some g \<Rightarrow>
        (case py_int16 (slice 4 6 hex_color) of
           None \<Rightarrow> hex_color
         | Some b \<Rightarrow>
             if r > 200 \<and> g > 200 \<and> b > 200 then ''white/cream''
             else if r < 50 \<and> g < 50 \<and> b < 50 then ''black/dark''
             else if r > g \<and> r > b
               then (if r > 200 then ''bright red/coral'' else ''red/burgundy'')
             else if g > r \<and> g > b
               then (if g > 200 then ''bright green/lime'' else ''green/forest'')
             else if b > r \<and> b > g
               then (if b > 200 then ''bright blue/sky'' else ''blue/navy'')
             else if r > 180 \<and> g > 150 \<and> b < 100 then ''golden/amber''
             else if r > 150 \<and> g > 100 \<and> b < 80 then ''brown/tan''
             else if r > 200 \<and> g > 150 \<and> b > 150 then ''pink/rose''
             else if r > 100 \<and> g > 100 \<and> b > 100 then ''gray''
             else ''('' @ hex_color @ '')'')))"


text \<open>A well-formed hex color: \<^verbatim>\<open>#\<close> followed by exactly six hexadecimal digits.\<close>

definition is_hex_color :: "string \<Rightarrow> bool" where
  "is_hex_color s =
     (case s of
        [] \<Rightarrow> False
      | c # ds \<Rightarrow> c = CHR ''#'' \<and> length ds = 6 \<and> list_all (\<lambda>d. hex_digit_value d \<noteq> None) ds)"

text \<open>
  A structured prompt follows the schema of the module's documentation. The nested
  dictionaries (a subject, the camera, a text element) are tested key by key with
  \<^verbatim>\<open>in\<close>, so they are association lists from keys to strings, read with
  \<^const>\<open>map_of\<close>. At the top level every key is tested as
  \<^verbatim>\<open>"k" in structured and structured["k"]\<close>: \<open>None\<close> is an absent key, and a present
  value counts when it is truthy, that is a non-empty string, list or dictionary.
\<close>

type_synonym py_dict = "(string \<times> string) list"

record structured_prompt =
  scene :: "string option"
  subjects :: "py_dict list option"
  style :: "string option"
  color_palette :: "string list option"
  lighting :: "string option"
  mood :: "string option"
  background :: "string option"
  composition :: "string option"
  camera :: "py_dict option"
  text_elements :: "py_dict list option"

text \<open>
  The loop \<^verbatim>\<open>for i, subject in enumerate(structured["subjects"], 1)\<close>; the last
  argument is the list \<^verbatim>\<open>subject_descriptions\<close> built so far.
\<close>

fun subjects_loop :: "nat \<Rightarrow> py_dict list \<Rightarrow> string list \<Rightarrow> string list" where
  "subjects_loop i [] subject_descriptions = subject_descriptions"
| "subjects_loop i (subject # rest) subject_descriptions =
     (let parts = [];
          parts = (case map_of subject ''description'' of
                     Some d \<Rightarrow> parts @ [d] | None \<Rightarrow> parts);
          parts = (case map_of subject ''position'' of
                     Some p \<Rightarrow> parts @ [''positioned '' @ p] | None \<Rightarrow> parts);
          parts = (case map_of subject ''action'' of
                     Some a \<Rightarrow> parts @ [a] | None \<Rightarrow> parts)
      in subjects_loop (i + 1) rest
           (if parts \<noteq> []
            then subject_descriptions @
                   [''Subject '' @ str_nat i @ '': '' @ join '', '' parts]
            else subject_descriptions))"

text \<open>
  The loop \<^verbatim>\<open>for text in structured["text_elements"]\<close>, with \<^verbatim>\<open>text_parts\<close> as the
  last argument. \<open>CHR 0x22\<close> is the double quote.
\<close>

fun text_loop :: "py_dict list \<Rightarrow> string list \<Rightarrow> string list" where
  "text_loop [] text_parts = text_parts"
| "text_loop (text # rest) text_parts =
     (let text_desc = [];
          text_desc = (case map_of text ''content'' of
                         Some c \<Rightarrow> text_desc @ [''Text reading '' @ [CHR 0x22] @ c @ [CHR 0x22]]
                       | None \<Rightarrow> text_desc);
          text_desc = (case map_of text ''style'' of
                         Some st \<Rightarrow> text_desc @ [''in '' @ st] | None \<Rightarrow> text_desc);
          text_desc = (case map_of text ''position'' of
                         Some p \<Rightarrow> text_desc @ [''located '' @ p] | None \<Rightarrow> text_desc);
          text_desc = (case map_of text ''color'' of
                         Some c \<Rightarrow> text_desc @ [''in '' @ hex_to_color_name c @ '' color'']
                       | None \<Rightarrow> text_desc)
      in text_loop rest
           (if text_desc \<noteq> [] then text_parts @ [join '' '' text_desc] else text_parts))"

definition build_prompt_from_structure :: "structured_prompt \<Rightarrow> string" where
  "build_prompt_from_structure structured =
     (let sections = [];
          sections = (case scene structured of
                        Some v \<Rightarrow> if v \<noteq> [] then sections @ [''Scene: '' @ v] else sections
                      | None \<Rightarrow> sections);
          sections = (case subjects structured of
                        Some v \<Rightarrow>
                          if v \<noteq> []
                          then (let subject_descriptions = subjects_loop 1 v []
                                in if subject_descriptions \<noteq> []
                                   then sections @ [join [CHR 0x0A] subject_descriptions]
                                   else sections)
                          else sections
                      | None \<Rightarrow> sections);
          sections = (case style structured of
                        Some v \<Rightarrow> if v \<noteq> [] then sections @ [''Style: '' @ v] else sections
                      | None \<Rightarrow> sections);
          sections = (case color_palette structured of
                        Some colors \<Rightarrow>
                          if colors \<noteq> []
                          then (let color_descriptions =
                                      map (\<lambda>c. c @ '' ('' @ hex_to_color_name c @ '')'') colors
                                in sections @
                                     [''Color palette: '' @ join '', '' color_descriptions])
                          else sections
                      | None \<Rightarrow> sections);
          sections = (case lighting structured of
                        Some v \<Rightarrow> if v \<noteq> [] then sections @ [''Lighting: '' @ v] else sections
                      | None \<Rightarrow> sections);
          sections = (case mood structured of
                        Some v \<Rightarrow>
                          if v \<noteq> [] then sections @ [''Mood and atmosphere: '' @ v]
                          else sections
                      | None \<Rightarrow> sections);
          sections = (case background structured of
                        Some v \<Rightarrow> if v \<noteq> [] then sections @ [''Background: '' @ v] else sections
                      | None \<Rightarrow> sections);
          sections = (case composition structured of
                        Some v \<Rightarrow> if v \<noteq> [] then sections @ [''Composition: '' @ v] else sections
                      | None \<Rightarrow> sections);
          sections = (case camera structured of
                        Some cam \<Rightarrow>
                          if cam \<noteq> []
                          then (let cam_parts = [];
                                    cam_parts = (case map_of cam ''angle'' of
                                                   Some a \<Rightarrow> cam_parts @ [''Camera angle: '' @ a]
                                                 | None \<Rightarrow> cam_parts);
                                    cam_parts = (case map_of cam ''lens'' of
                                                   Some l \<Rightarrow> cam_parts @ [''Lens: '' @ l]
                                                 | None \<Rightarrow> cam_parts);
                                    cam_parts = (case map_of cam ''depth_of_field'' of
                                                   Some d \<Rightarrow> cam_parts @ [''Depth of field: '' @ d]
                                                 | None \<Rightarrow> cam_parts)
                                in if cam_parts \<noteq> []
                                   then sections @ [join '' | '' cam_parts]
                                   else sections)
                          else sections
                      | None \<Rightarrow> sections);
          sections = (case text_elements structured of
                        Some v \<Rightarrow>
                          if v \<noteq> []
                          then (let text_parts = text_loop v []
                                in if text_parts \<noteq> []
                                   then sections @ [''Text elements: '' @ join ''; '' text_parts]
                                   else sections)
                          else sections
                      | None \<Rightarrow> sections);
          main_prompt = join [CHR 0x0A, CHR 0x0A] sections
      in main_prompt)"

subsection \<open>The sections of a compiled prompt, as the specification words them\<close>

text \<open>
  The specification describes the compiled prompt section by section. The definitions
  below follow its words, one function per section, each giving the text of the section
  or \<open>None\<close> when the section is left out; they are compared with
  \<^const>\<open>build_prompt_from_structure\<close> further down.
\<close>

definition labelled :: "string \<Rightarrow> string option \<Rightarrow> string option" where
  "labelled label field =
     (case field of
        Some v \<Rightarrow> if v \<noteq> [] then Some (label @ v) else None
      | None \<Rightarrow> None)"

definition scene_section :: "structured_prompt \<Rightarrow> string option" where
  "scene_section p = labelled ''Scene: '' (scene p)"

definition style_section :: "structured_prompt \<Rightarrow> string option" where
  "style_section p = labelled ''Style: '' (style p)"

definition lighting_section :: "structured_prompt \<Rightarrow> string option" where
  "lighting_section p = labelled ''Lighting: '' (lighting p)"

definition mood_section :: "structured_prompt \<Rightarrow> string option" where
  "mood_section p = labelled ''Mood and atmosphere: '' (mood p)"

definition background_section :: "structured_prompt \<Rightarrow> string option" where
  "background_section p = labelled ''Background: '' (background p)"

definition composition_section :: "structured_prompt \<Rightarrow> string option" where
  "composition_section p = labelled ''Composition: '' (composition p)"

text \<open>The fragments of a subject that are present, in the order of the specification.\<close>

definition subject_parts :: "py_dict \<Rightarrow> string list" where
  "subject_parts subject =
     List.map_filter id
       [map_of subject ''description'',
        map_option (\<lambda>v. ''positioned '' @ v) (map_of subject ''position''),
        map_of subject ''action'']"

definition subject_line :: "nat \<Rightarrow> py_dict \<Rightarrow> string option" where
  "subject_line n subject =
     (if subject_parts subject = [] then None
      else Some (''Subject '' @ str_nat n @ '': '' @ join '', '' (subject_parts subject)))"

definition subject_lines :: "nat \<Rightarrow> py_dict list \<Rightarrow> string list" where
  "subject_lines i subs =
     List.map_filter (\<lambda>(n, s). subject_line n s) (zip [i ..< i + length subs] subs)"

definition subjects_section :: "structured_prompt \<Rightarrow> string option" where
  "subjects_section p =
     (case subjects p of
        None \<Rightarrow> None
      | Some subs \<Rightarrow>
          if subject_lines 1 subs = [] then None
          else Some (join [CHR 0x0A] (subject_lines 1 subs)))"

definition palette_section :: "structured_prompt \<Rightarrow> string option" where
  "palette_section p =
     (case color_palette p of
        None \<Rightarrow> None
      | Some colors \<Rightarrow>
          if colors = [] then None
          else Some (''Color palette: '' @
                     join '', '' (map (\<lambda>c. c @ '' ('' @ hex_to_color_name c @ '')'') colors)))"

definition camera_parts :: "py_dict \<Rightarrow> string list" where
  "camera_parts cam =
     List.map_filter id
       [map_option (\<lambda>v. ''Camera angle: '' @ v) (map_of cam ''angle''),
        map_option (\<lambda>v. ''Lens: '' @ v) (map_of cam ''lens''),
        map_option (\<lambda>v. ''Depth of field: '' @ v) (map_of cam ''depth_of_field'')]"

definition camera_section :: "structured_prompt \<Rightarrow> string option" where
  "camera_section p =
     (case camera p of
        None \<Rightarrow> None
      | Some cam \<Rightarrow>
          if camera_parts cam = [] then None
          else Some (join '' | '' (camera_parts cam)))"

definition text_fragments :: "py_dict \<Rightarrow> string list" where
  "text_fragments text =
     List.map_filter id
       [map_option (\<lambda>v. ''Text reading '' @ [CHR 0x22] @ v @ [CHR 0x22]) (map_of text ''content''),
        map_option (\<lambda>v. ''in '' @ v) (map_of text ''style''),
        map_option (\<lambda>v. ''located '' @ v) (map_of text ''position''),
        map_option (\<lambda>v. ''in '' @ hex_to_color_name v @ '' color'') (map_of text ''color'')]"

definition text_line :: "py_dict \<Rightarrow> string option" where
  "text_line text =
     (if text_fragments text = [] then None else Some (join '' '' (text_fragments text)))"

definition text_section :: "structured_prompt \<Rightarrow> string option" where
  "text_section p =
     (case text_elements p of
        None \<Rightarrow> None
      | Some texts \<Rightarrow>
          if List.map_filter text_line texts = [] then None
          else Some (''Text elements: '' @ join ''; '' (List.map_filter text_line texts)))"

text \<open>The section list of the prompt: the sections that are present, in the fixed order.\<close>

definition prompt_sections :: "structured_prompt \<Rightarrow> string list" where
  "prompt_sections p =
     List.map_filter (\<lambda>section. section p)
       [scene_section, subjects_section, style_section, palette_section,
        lighting_section, mood_section, background_section, composition_section,
        camera_section, text_section]"

section \<open>Image encoding\<close>

text \<open>
  \<^verbatim>\<open>str.lower()\<close> on the code points below 256: the ASCII capitals and the Latin-1
  capitals (\<open>0xC0\<close> to \<open>0xDE\<close> without the multiplication sign \<open>0xD7\<close>) move up by 32.
\<close>

definition lower_char :: "char \<Rightarrow> char" where
  "lower_char c =
     (let n = (of_char c :: nat)
      in if (65 \<le> n \<and> n \<le> 90) \<or> (192 \<le> n \<and> n \<le> 222 \<and> n \<noteq> 215)
         then char_of (n + 32) else c)"

definition lower :: "string \<Rightarrow> string" where
  "lower s = map lower_char s"

type_synonym byte = "8 word"

definition b64_alphabet :: string where
  "b64_alphabet = ''ABCDEFGHIJKLMNOPQRSTUVWXYZabcdefghijklmnopqrstuvwxyz0123456789+/''"

text \<open>
  \<^verbatim>\<open>base64.b64encode(data).decode("utf-8")\<close>: three bytes give four characters of the
  standard alphabet; a last group of one or two bytes is padded with \<open>=\<close>.
\<close>

fun b64encode :: "byte list \<Rightarrow> string" where
  "b64encode [] = []"
| "b64encode [a] =
     (let n = unat a * 65536
      in [b64_alphabet ! (n div 262144), b64_alphabet ! (n div 4096 mod 64),
          CHR ''='', CHR ''=''])"
| "b64encode [a, b] =
     (let n = unat a * 65536 + unat b * 256
      in [b64_alphabet ! (n div 262144), b64_alphabet ! (n div 4096 mod 64),
          b64_alphabet ! (n div 64 mod 64), CHR ''=''])"
| "b64encode (a # b # c # rest) =
     (let n = unat a * 65536 + unat b * 256 + unat c
      in [b64_alphabet ! (n div 262144), b64_alphabet ! (n div 4096 mod 64),
          b64_alphabet ! (n div 64 mod 64), b64_alphabet ! (n mod 64)] @ b64encode rest)"

text \<open>
  The argument \<^verbatim>\<open>image_path\<close> is a \<^verbatim>\<open>pathlib.Path\<close>. The function asks two things of
  it: it opens it for reading, and it reads its \<^verbatim>\<open>suffix\<close> attribute, which pathlib
  computes from the final path component. The record holds both: the text of the path,
  under which the file system is looked up, and the value of the attribute.
  A file system maps a path to the bytes of the file, \<open>None\<close> when \<^verbatim>\<open>open\<close> raises.
\<close>

record path =
  path_text :: string
  suffix :: string

datatype io_error = OSError string

definition mime_types :: "(string \<times> string) list" where
  "mime_types =
     [(''.jpg'', ''image/jpeg''),
      (''.jpeg'', ''image/jpeg''),
      (''.png'', ''image/png''),
      (''.webp'', ''image/webp''),
      (''.gif'', ''image/gif'')]"

definition encode_image_to_base64 ::
  "(string \<Rightarrow> byte list option) \<Rightarrow> path \<Rightarrow> io_error + string" where
  "encode_image_to_base64 fs image_path =
     (case fs (path_text image_path) of
        None \<Rightarrow> Inl (OSError (path_text image_path))
      | Some bytes \<Rightarrow>
          (let image_data = b64encode bytes;
               extension = lower (suffix image_path);
               mime_type = (case map_of mime_types extension of
                              Some m \<Rightarrow> m | None \<Rightarrow> ''image/jpeg'')
           in Inr (''data:'' @ mime_type @ '';base64,'' @ image_data)))"

section \<open>Polling\<close>

definition MAX_POLL_ATTEMPTS :: nat where
  "MAX_POLL_ATTEMPTS = 120"

text \<open>
  What \<^verbatim>\<open>poll_for_result\<close> reads of a poll response: the HTTP status code and, of the
  decoded JSON object, the value under \<^verbatim>\<open>"status"\<close> (\<open>None\<close> when the key is absent)
  and under \<^verbatim>\<open>"error"\<close>; \<open>sample\<close> is the image URL under \<^verbatim>\<open>result\<close>, which the caller
  reads from the returned object.
\<close>

record task_result =
  status :: "string option"
  error_text :: "string option"
  sample :: "string option"

record poll_response =
  status_code :: int
  json :: task_result

text \<open>\<^verbatim>\<open>sys.exit(n)\<close> ends the process with exit status \<open>n\<close>.\<close>

datatype process_exit = SystemExit int

text \<open>
  The loop \<^verbatim>\<open>for attempt in range(MAX_POLL_ATTEMPTS)\<close>. The server is the function
  \<open>get\<close>: \<open>get n\<close> is the response to the request of attempt \<open>n\<close> (counted from 0).
  The second argument is the current attempt, the third the number of attempts left;
  when none is left the code after the loop runs, \<^verbatim>\<open>sys.exit(1)\<close>.
\<close>

fun poll_loop :: "(nat \<Rightarrow> poll_response) \<Rightarrow> nat \<Rightarrow> nat \<Rightarrow> process_exit + task_result" where
  "poll_loop get attempt 0 = Inl (SystemExit 1)"
| "poll_loop get attempt (Suc remaining) =
     (let response = get attempt
      in if status_code response \<noteq> 200
         then poll_loop get (attempt + 1) remaining
         else (let result = json response;
                   st = status result
               in if st = Some ''Ready'' then Inr result
                  else if st = Some ''Error'' then Inl (SystemExit 1)
                  else if st \<in> set [Some ''Pending'', Some ''Processing'', Some ''Queued'']
                    then poll_loop get (attempt + 1) remaining
                  else poll_loop get (attempt + 1) remaining))"

definition poll_for_result :: "(nat \<Rightarrow> poll_response) \<Rightarrow> process_exit + task_result" where
  "poll_for_result get = poll_loop get 0 MAX_POLL_ATTEMPTS"

text \<open>
  The two terminal statuses, as predicates on a poll response: a response decoded from
  an HTTP 200 answer whose status is \<^verbatim>\<open>Ready\<close>, respectively \<^verbatim>\<open>Error\<close>. The body of a
  response with another HTTP status is never looked at.
\<close>

definition is_ready :: "poll_response \<Rightarrow> bool" where
  "is_ready response \<longleftrightarrow>
     status_code response = 200 \<and> status (json response) = Some ''Ready''"

definition is_error :: "poll_response \<Rightarrow> bool" where
  "is_error response \<longleftrightarrow>
     status_code response = 200 \<and> status (json response) = Some ''Error''"

section \<open>Properties of dimension validation\<close>

lemma py_round_of_int: "py_round (of_int k) = k"
  by (simp add: py_round_def)



text \<open>
  C5. Dimensions that already satisfy the limits (both at least 64, at most 4,000,000
  pixels in total, both multiples of 16) come back unchanged, with no error and no
  warning.
\<close>

theorem validate_dimensions_valid_unchanged:
  assumes "64 \<le> width" and "64 \<le> height"
    and "width * height \<le> 4000000"
    and "width mod 16 = 0" and "height mod 16 = 0"
  shows "validate_dimensions width height = (width, height, [], [])"
  using assms
  by (simp add: validate_dimensions_def MIN_DIMENSION_def MAX_MEGAPIXELS_def)

theorem validate_dimensions_valid_unchanged_witness:
  "(64::int) \<le> 1536 \<and> (64::int) \<le> 1152 \<and> (1536::int) * 1152 \<le> 4000000
   \<and> (1536::int) mod 16 = 0 \<and> (1152::int) mod 16 = 0
   \<and> validate_dimensions 1536 1152 = (1536, 1152, [], [])"
  using validate_dimensions_valid_unchanged [of 1536 1152] by simp

text \<open>
  C6. For width 1920 and height 1081 the width stays, the height becomes 1088, there is
  no error, and the only warning is the one for the adjusted height.
\<close>

theorem validate_dimensions_1920_1081:
  "validate_dimensions 1920 1081 = (1920, 1088, [], [HeightAdjusted 1081 1088])"
  by code_simp

lemma round_to_multiple_of_16_dvd: "16 dvd round_to_multiple_of_16 val"
  by (simp add: round_to_multiple_of_16_def)

text \<open>
  Whatever the input, both adjusted dimensions are at least 64 and multiples of 16.
\<close>

lemma validate_dimensions_min_and_multiple:
  assumes "validate_dimensions width height = (w, h, errs, warns)"
  shows "64 \<le> w \<and> 64 \<le> h \<and> 16 dvd w \<and> 16 dvd h"
  using assms round_to_multiple_of_16_dvd [of width] round_to_multiple_of_16_dvd [of height]
  by (auto simp: validate_dimensions_def MIN_DIMENSION_def Let_def mod_eq_0_iff_dvd
      split: if_splits)

text \<open>
  C1. With an empty error list the adjusted width and height are meant to be at least 64,
  multiples of 16, and to have a product of at most 4,000,000. The pixel limit is checked
  on the requested values only, before rounding: for 73 by 54794 (3,999,962 pixels) no
  error is reported, both values are rounded up, and the adjusted 80 by 54800 has
  4,384,000 pixels.
\<close>

theorem validate_dimensions_exceeds_after_rounding:
  "validate_dimensions 73 54794 =
     (80, 54800, [], [WidthAdjusted 73 80, HeightAdjusted 54794 54800])
   \<and> 73 * 54794 \<le> MAX_MEGAPIXELS \<and> MAX_MEGAPIXELS < 80 * 54800"
  by code_simp



section \<open>Properties of the prompt builder\<close>

lemma labelled_step:
  "(case field of
      Some v \<Rightarrow> if v \<noteq> [] then sections @ [label @ v] else sections
    | None \<Rightarrow> sections) = sections @ List.map_filter id [labelled label field]"
  by (simp add: labelled_def List.map_filter_simps split: option.splits)

lemma subjects_loop_eq:
  "subjects_loop i subs acc = acc @ subject_lines i subs"
proof (induction subs arbitrary: i acc)
  case Nil
  show ?case by (simp add: subject_lines_def List.map_filter_simps)
next
  case (Cons s rest)
  have z: "zip [i ..< i + length (s # rest)] (s # rest)
             = (i, s) # zip [Suc i ..< Suc i + length rest] rest"
    by (simp del: upt_Suc add: upt_conv_Cons)
  have l: "subject_lines i (s # rest)
             = (case subject_line i s of None \<Rightarrow> [] | Some x \<Rightarrow> [x]) @ subject_lines (Suc i) rest"
    unfolding subject_lines_def z
    by (simp add: List.map_filter_simps split: option.splits)
  show ?case
    unfolding l
    by (simp add: Cons.IH subject_line_def subject_parts_def List.map_filter_simps Let_def
        split: option.splits)
qed

lemma text_loop_eq:
  "text_loop texts acc = acc @ List.map_filter text_line texts"
proof (induction texts arbitrary: acc)
  case Nil
  show ?case by (simp add: List.map_filter_simps)
next
  case (Cons t rest)
  show ?case
    by (simp add: Cons.IH text_line_def text_fragments_def List.map_filter_simps Let_def
        split: option.splits)
qed

lemma subjects_step:
  "(case subjects p of
      Some v \<Rightarrow>
        if v \<noteq> []
        then (let subject_descriptions = subjects_loop 1 v []
              in if subject_descriptions \<noteq> []
                 then sections @ [join [CHR 0x0A] subject_descriptions]
                 else sections)
        else sections
    | None \<Rightarrow> sections) = sections @ List.map_filter id [subjects_section p]"
  by (simp add: subjects_section_def subjects_loop_eq subject_lines_def
      List.map_filter_simps split: option.splits)

lemma palette_step:
  "(case color_palette p of
      Some colors \<Rightarrow>
        if colors \<noteq> []
        then (let color_descriptions =
                    map (\<lambda>c. c @ '' ('' @ hex_to_color_name c @ '')'') colors
              in sections @ [''Color palette: '' @ join '', '' color_descriptions])
        else sections
    | None \<Rightarrow> sections) = sections @ List.map_filter id [palette_section p]"
  by (simp add: palette_section_def List.map_filter_simps split: option.splits)

lemma camera_step:
  "(case camera p of
      Some cam \<Rightarrow>
        if cam \<noteq> []
        then (let cam_parts = [];
                  cam_parts = (case map_of cam ''angle'' of
                                 Some a \<Rightarrow> cam_parts @ [''Camera angle: '' @ a]
                               | None \<Rightarrow> cam_parts);
                  cam_parts = (case map_of cam ''lens'' of
                                 Some l \<Rightarrow> cam_parts @ [''Lens: '' @ l]
                               | None \<Rightarrow> cam_parts);
                  cam_parts = (case map_of cam ''depth_of_field'' of
                                 Some d \<Rightarrow> cam_parts @ [''Depth of field: '' @ d]
                               | None \<Rightarrow> cam_parts)
              in if cam_parts \<noteq> []
                 then sections @ [join '' | '' cam_parts]
                 else sections)
        else sections
    | None \<Rightarrow> sections) = sections @ List.map_filter id [camera_section p]"
  by (simp add: camera_section_def camera_parts_def List.map_filter_simps Let_def
      split: option.splits)

lemma text_step:
  "(case text_elements p of
      Some v \<Rightarrow>
        if v \<noteq> []
        then (let text_parts = text_loop v []
              in if text_parts \<noteq> []
                 then sections @ [''Text elements: '' @ join ''; '' text_parts]
                 else sections)
        else sections
    | None \<Rightarrow> sections) = sections @ List.map_filter id [text_section p]"
  by (simp add: text_section_def text_loop_eq List.map_filter_simps split: option.splits)

lemma build_prompt_sections:
  "build_prompt_from_structure p = join [CHR 0x0A, CHR 0x0A] (prompt_sections p)"
  unfolding build_prompt_from_structure_def labelled_step subjects_step palette_step
    camera_step text_step prompt_sections_def
    scene_section_def style_section_def lighting_section_def mood_section_def
    background_section_def composition_section_def
  by (simp add: List.map_filter_simps split: option.splits)


lemma map_filter_empty_iff:
  "List.map_filter f xs = [] \<longleftrightarrow> (\<forall>x \<in> set xs. f x = None)"
  by (induction xs) (simp_all add: List.map_filter_simps split: option.splits)

lemma labelled_present:
  "labelled label field \<noteq> None \<longleftrightarrow> (\<exists>v. field = Some v \<and> v \<noteq> [])"
  by (simp add: labelled_def split: option.splits)

lemma subject_parts_empty:
  "subject_parts s = [] \<longleftrightarrow>
     map_of s ''description'' = None \<and> map_of s ''position'' = None
     \<and> map_of s ''action'' = None"
  by (auto simp: subject_parts_def List.map_filter_simps split: option.splits)

lemma subject_lines_Cons:
  "subject_lines i (s # rest)
     = (case subject_line i s of None \<Rightarrow> [] | Some x \<Rightarrow> [x]) @ subject_lines (Suc i) rest"
proof -
  have z: "zip [i ..< i + length (s # rest)] (s # rest)
             = (i, s) # zip [Suc i ..< Suc i + length rest] rest"
    by (simp del: upt_Suc add: upt_conv_Cons)
  show ?thesis
    unfolding subject_lines_def z
    by (simp add: List.map_filter_simps split: option.splits)
qed

lemma subject_lines_empty_iff:
  "subject_lines i subs = [] \<longleftrightarrow> (\<forall>s \<in> set subs. subject_parts s = [])"
proof (induction subs arbitrary: i)
  case Nil
  show ?case by (simp add: subject_lines_def List.map_filter_simps)
next
  case (Cons s rest)
  show ?case
    unfolding subject_lines_Cons
    by (simp add: Cons.IH subject_line_def split: option.splits)
qed

lemma subjects_section_present:
  "subjects_section p \<noteq> None \<longleftrightarrow>
     (\<exists>subs. subjects p = Some subs \<and>
        (\<exists>s \<in> set subs. map_of s ''description'' \<noteq> None \<or> map_of s ''position'' \<noteq> None
           \<or> map_of s ''action'' \<noteq> None))"
proof (cases "subjects p")
  case None
  then show ?thesis by (simp add: subjects_section_def)
next
  case (Some subs)
  have "subjects_section p \<noteq> None \<longleftrightarrow> \<not> (\<forall>s \<in> set subs. subject_parts s = [])"
    using Some by (simp add: subjects_section_def subject_lines_empty_iff)
  then show ?thesis
    using Some by (simp add: subject_parts_empty)
qed

lemma palette_section_present:
  "palette_section p \<noteq> None \<longleftrightarrow> (\<exists>v. color_palette p = Some v \<and> v \<noteq> [])"
  by (simp add: palette_section_def split: option.splits)

lemma camera_section_present:
  "camera_section p \<noteq> None \<longleftrightarrow>
     (\<exists>cam. camera p = Some cam \<and>
        (map_of cam ''angle'' \<noteq> None \<or> map_of cam ''lens'' \<noteq> None
         \<or> map_of cam ''depth_of_field'' \<noteq> None))"
  by (auto simp: camera_section_def camera_parts_def List.map_filter_simps
      split: option.splits)

lemma text_fragments_empty:
  "text_fragments t = [] \<longleftrightarrow>
     map_of t ''content'' = None \<and> map_of t ''style'' = None
     \<and> map_of t ''position'' = None \<and> map_of t ''color'' = None"
  by (auto simp: text_fragments_def List.map_filter_simps split: option.splits)

lemma text_section_present:
  "text_section p \<noteq> None \<longleftrightarrow>
     (\<exists>texts. text_elements p = Some texts \<and>
        (\<exists>t \<in> set texts. map_of t ''content'' \<noteq> None \<or> map_of t ''style'' \<noteq> None
           \<or> map_of t ''position'' \<noteq> None \<or> map_of t ''color'' \<noteq> None))"
proof (cases "text_elements p")
  case None
  then show ?thesis by (simp add: text_section_def)
next
  case (Some texts)
  have "text_section p \<noteq> None \<longleftrightarrow> \<not> (\<forall>t \<in> set texts. text_fragments t = [])"
    using Some by (simp add: text_section_def map_filter_empty_iff text_line_def)
  then show ?thesis
    using Some by (simp add: text_fragments_empty)
qed

text \<open>
  C3, as the code has it. The compiled prompt is the list of the sections that are
  present, in the fixed order scene, subjects, style, color palette, lighting, mood,
  background, composition, camera, text elements, joined by blank lines. The scene,
  style, color palette, lighting, mood, background and composition sections are present
  exactly when their field is non-empty. The subjects, camera and text elements sections
  are present exactly when the field holds at least one entry that renders: a subject
  with one of the keys description, position, action; a camera with one of the keys
  angle, lens, depth_of_field; a text element with one of the keys content, style,
  position, color.
\<close>

theorem build_prompt_ordered_sections:
  "build_prompt_from_structure p =
     join [CHR 0x0A, CHR 0x0A]
       (List.map_filter (\<lambda>section. section p)
          [scene_section, subjects_section, style_section, palette_section,
           lighting_section, mood_section, background_section, composition_section,
           camera_section, text_section])
   \<and> (scene_section p \<noteq> None \<longleftrightarrow> (\<exists>v. scene p = Some v \<and> v \<noteq> []))
   \<and> (subjects_section p \<noteq> None \<longleftrightarrow>
        (\<exists>subs. subjects p = Some subs \<and>
           (\<exists>s \<in> set subs. map_of s ''description'' \<noteq> None \<or> map_of s ''position'' \<noteq> None
              \<or> map_of s ''action'' \<noteq> None)))
   \<and> (style_section p \<noteq> None \<longleftrightarrow> (\<exists>v. style p = Some v \<and> v \<noteq> []))
   \<and> (palette_section p \<noteq> None \<longleftrightarrow> (\<exists>v. color_palette p = Some v \<and> v \<noteq> []))
   \<and> (lighting_section p \<noteq> None \<longleftrightarrow> (\<exists>v. lighting p = Some v \<and> v \<noteq> []))
   \<and> (mood_section p \<noteq> None \<longleftrightarrow> (\<exists>v. mood p = Some v \<and> v \<noteq> []))
   \<and> (background_section p \<noteq> None \<longleftrightarrow> (\<exists>v. background p = Some v \<and> v \<noteq> []))
   \<and> (composition_section p \<noteq> None \<longleftrightarrow> (\<exists>v. composition p = Some v \<and> v \<noteq> []))
   \<and> (camera_section p \<noteq> None \<longleftrightarrow>
        (\<exists>cam. camera p = Some cam \<and>
           (map_of cam ''angle'' \<noteq> None \<or> map_of cam ''lens'' \<noteq> None
            \<or> map_of cam ''depth_of_field'' \<noteq> None)))
   \<and> (text_section p \<noteq> None \<longleftrightarrow>
        (\<exists>texts. text_elements p = Some texts \<and>
           (\<exists>t \<in> set texts. map_of t ''content'' \<noteq> None \<or> map_of t ''style'' \<noteq> None
              \<or> map_of t ''position'' \<noteq> None \<or> map_of t ''color'' \<noteq> None)))"
  unfolding build_prompt_sections prompt_sections_def
    subjects_section_present palette_section_present camera_section_present
    text_section_present
    scene_section_def style_section_def lighting_section_def mood_section_def
    background_section_def composition_section_def labelled_present
  by simp

theorem build_prompt_ordered_sections_witness:
  "build_prompt_from_structure
     \<lparr>scene = Some ''A shop'', subjects = Some [[(''action'', ''sleeping'')], []],
      style = None, color_palette = None, lighting = Some ''Soft'', mood = None,
      background = None, composition = None,
      camera = Some [(''lens'', ''50mm''), (''angle'', ''Eye level'')],
      text_elements = Some []\<rparr>
   = ''Scene: A shop'' @ [CHR 0x0A, CHR 0x0A] @ ''Subject 1: sleeping''
     @ [CHR 0x0A, CHR 0x0A] @ ''Lighting: Soft'' @ [CHR 0x0A, CHR 0x0A]
     @ ''Camera angle: Eye level | Lens: 50mm''"
proof -
  let ?p = "\<lparr>scene = Some ''A shop'', subjects = Some [[(''action'', ''sleeping'')], []],
      style = None, color_palette = None, lighting = Some ''Soft'', mood = None,
      background = None, composition = None,
      camera = Some [(''lens'', ''50mm''), (''angle'', ''Eye level'')],
      text_elements = Some []\<rparr>"
  have e: "join [CHR 0x0A, CHR 0x0A]
       (List.map_filter (\<lambda>section. section ?p)
          [scene_section, subjects_section, style_section, palette_section,
           lighting_section, mood_section, background_section, composition_section,
           camera_section, text_section])
     = ''Scene: A shop'' @ [CHR 0x0A, CHR 0x0A] @ ''Subject 1: sleeping''
     @ [CHR 0x0A, CHR 0x0A] @ ''Lighting: Soft'' @ [CHR 0x0A, CHR 0x0A]
     @ ''Camera angle: Eye level | Lens: 50mm''"
    by code_simp
  from build_prompt_ordered_sections [of ?p] have
    "build_prompt_from_structure ?p = join [CHR 0x0A, CHR 0x0A]
       (List.map_filter (\<lambda>section. section ?p)
          [scene_section, subjects_section, style_section, palette_section,
           lighting_section, mood_section, background_section, composition_section,
           camera_section, text_section])"
    by (rule conjunct1)
  then show ?thesis unfolding e .
qed

text \<open>
  C3 as stated fails: a non-empty \<open>subjects\<close> list whose only subject has none of the
  three keys gives no subjects section (and likewise a camera with an unknown key only,
  and a text element without keys); the whole prompt is empty here.
\<close>

theorem build_prompt_section_counterexample:
  "subjects \<lparr>scene = None, subjects = Some [[]], style = None, color_palette = None,
       lighting = None, mood = None, background = None, composition = None,
       camera = Some [(''zoom'', ''2x'')], text_elements = Some [[]]\<rparr> = Some [[]]
   \<and> [[]] \<noteq> ([] :: py_dict list)
   \<and> build_prompt_from_structure
        \<lparr>scene = None, subjects = Some [[]], style = None, color_palette = None,
         lighting = None, mood = None, background = None, composition = None,
         camera = Some [(''zoom'', ''2x'')], text_elements = Some [[]]\<rparr> = []"
  by code_simp

text \<open>
  C7. A structured prompt in which every field is absent or empty compiles to the empty
  string.
\<close>

theorem build_prompt_all_absent:
  assumes "scene p \<in> {None, Some []}" and "subjects p \<in> {None, Some []}"
    and "style p \<in> {None, Some []}" and "color_palette p \<in> {None, Some []}"
    and "lighting p \<in> {None, Some []}" and "mood p \<in> {None, Some []}"
    and "background p \<in> {None, Some []}" and "composition p \<in> {None, Some []}"
    and "camera p \<in> {None, Some []}" and "text_elements p \<in> {None, Some []}"
  shows "build_prompt_from_structure p = []"
proof -
  have absent: "labelled label field = None" if "field \<in> {None, Some []}" for label field
    using that by (auto simp: labelled_def)
  have "scene_section p = None" "style_section p = None" "lighting_section p = None"
    "mood_section p = None" "background_section p = None" "composition_section p = None"
    unfolding scene_section_def style_section_def lighting_section_def
      mood_section_def background_section_def composition_section_def
    by (rule absent, fact)+
  moreover have "subjects_section p = None"
    using assms(2) by (auto simp: subjects_section_def subject_lines_def List.map_filter_simps)
  moreover have "palette_section p = None"
    using assms(4) by (auto simp: palette_section_def)
  moreover have "camera_section p = None"
    using assms(9) by (auto simp: camera_section_def camera_parts_def List.map_filter_simps)
  moreover have "text_section p = None"
    using assms(10) by (auto simp: text_section_def List.map_filter_simps)
  ultimately show ?thesis
    by (simp add: build_prompt_sections prompt_sections_def List.map_filter_simps)
qed

theorem build_prompt_all_absent_witness:
  "build_prompt_from_structure
     \<lparr>scene = Some [], subjects = None, style = None, color_palette = Some [],
      lighting = None, mood = Some [], background = None, composition = None,
      camera = Some [], text_elements = Some []\<rparr> = []"
  using build_prompt_all_absent
    [of "\<lparr>scene = Some [], subjects = None, style = None, color_palette = Some [],
      lighting = None, mood = Some [], background = None, composition = None,
      camera = Some [], text_elements = Some []\<rparr>"]
  by simp

section \<open>Properties of the color namer\<close>

lemma hex_digit_chars:
  assumes "hex_digit_value c = Some v"
  shows "c \<in> set ''0123456789abcdefABCDEF''"
proof -
  from assms have "(c, v) \<in> set [(CHR ''0'', 0), (CHR ''1'', 1), (CHR ''2'', 2), (CHR ''3'', 3),
             (CHR ''4'', 4), (CHR ''5'', 5), (CHR ''6'', 6), (CHR ''7'', 7),
             (CHR ''8'', 8), (CHR ''9'', 9),
             (CHR ''a'', 10), (CHR ''b'', 11), (CHR ''c'', 12), (CHR ''d'', 13),
             (CHR ''e'', 14), (CHR ''f'', 15),
             (CHR ''A'', 10), (CHR ''B'', 11), (CHR ''C'', 12), (CHR ''D'', 13),
             (CHR ''E'', 14), (CHR ''F'', 15 :: int)]"
    unfolding hex_digit_value_def by (rule map_of_SomeD)
  then show ?thesis by auto
qed

lemma hex_digit_range:
  assumes "hex_digit_value c = Some v"
  shows "0 \<le> v \<and> v \<le> 15"
proof -
  from assms have "(c, v) \<in> set [(CHR ''0'', 0), (CHR ''1'', 1), (CHR ''2'', 2), (CHR ''3'', 3),
             (CHR ''4'', 4), (CHR ''5'', 5), (CHR ''6'', 6), (CHR ''7'', 7),
             (CHR ''8'', 8), (CHR ''9'', 9),
             (CHR ''a'', 10), (CHR ''b'', 11), (CHR ''c'', 12), (CHR ''d'', 13),
             (CHR ''e'', 14), (CHR ''f'', 15),
             (CHR ''A'', 10), (CHR ''B'', 11), (CHR ''C'', 12), (CHR ''D'', 13),
             (CHR ''E'', 14), (CHR ''F'', 15 :: int)]"
    unfolding hex_digit_value_def by (rule map_of_SomeD)
  then show ?thesis by auto
qed

lemma hex_digit_plain:
  assumes "hex_digit_value c = Some v"
  shows "\<not> is_space c" "c \<noteq> CHR ''+''" "c \<noteq> CHR ''-''" "c \<noteq> CHR ''_''"
    "c \<noteq> CHR ''x''" "c \<noteq> CHR ''X''" "c \<noteq> CHR ''#''"
  using hex_digit_chars [OF assms] by (auto simp: is_space_def)

lemma py_int16_two_digits:
  assumes a: "hex_digit_value a = Some x" and b: "hex_digit_value b = Some y"
  shows "py_int16 [a, b] = Some (x * 16 + y)"
  using hex_digit_plain [OF a] hex_digit_plain [OF b]
  by (simp add: py_int16_def a b)



lemma hex_digit_special [simp]:
  "hex_digit_value (CHR ''_'') = None" "hex_digit_value (CHR ''+'') = None"
  "hex_digit_value (CHR ''-'') = None" "hex_digit_value (CHR ''x'') = None"
  "hex_digit_value (CHR ''X'') = None" "hex_digit_value (CHR ''0'') = Some 0"
  by (simp_all add: hex_digit_value_def)

lemma is_space_special [simp]:
  "\<not> is_space (CHR ''_'')" "\<not> is_space (CHR ''+'')" "\<not> is_space (CHR ''-'')"
  "\<not> is_space (CHR ''0'')"
  by (simp_all add: is_space_def)


lemma py_int16_space_only: "is_space a \<Longrightarrow> py_int16 [a] = None"
  by (simp add: py_int16_def)











lemma hex_to_color_name_tie:
  assumes "py_int16 (slice 0 2 (lstrip ''#'' s)) = Some r"
    and "py_int16 (slice 2 4 (lstrip ''#'' s)) = Some g"
    and "py_int16 (slice 4 6 (lstrip ''#'' s)) = Some b"
    and "hex_to_color_name s = ''golden/amber'' \<or> hex_to_color_name s = ''brown/tan''"
  shows "r = g"
proof -
  have "r \<le> g \<and> g \<le> r"
    using assms(4) unfolding hex_to_color_name_def Let_def assms(1,2,3) option.case
    by (simp split: if_splits)
  then show ?thesis by simp
qed

lemma is_hex_color_channels:
  assumes "is_hex_color s"
  shows "\<exists>r g b. py_int16 (slice 0 2 (lstrip ''#'' s)) = Some r
           \<and> py_int16 (slice 2 4 (lstrip ''#'' s)) = Some g
           \<and> py_int16 (slice 4 6 (lstrip ''#'' s)) = Some b
           \<and> 0 \<le> r \<and> r \<le> 255 \<and> 0 \<le> g \<and> g \<le> 255 \<and> 0 \<le> b \<and> b \<le> 255"
proof -
  from assms obtain ds where s: "s = CHR ''#'' # ds" and len: "length ds = 6"
    and hex: "list_all (\<lambda>d. hex_digit_value d \<noteq> None) ds"
    by (auto simp: is_hex_color_def split: list.splits)
  from len obtain d1 d2 d3 d4 d5 d6 where ds: "ds = [d1, d2, d3, d4, d5, d6]"
    by (auto simp: length_Suc_conv eval_nat_numeral)
  from hex obtain v1 v2 v3 v4 v5 v6 where
    v: "hex_digit_value d1 = Some v1" "hex_digit_value d2 = Some v2"
       "hex_digit_value d3 = Some v3" "hex_digit_value d4 = Some v4"
       "hex_digit_value d5 = Some v5" "hex_digit_value d6 = Some v6"
    unfolding ds by auto
  have strip: "lstrip ''#'' s = [d1, d2, d3, d4, d5, d6]"
    unfolding s ds using hex_digit_plain(7) [OF v(1)] by (simp add: lstrip_def)
  have sl: "slice 0 2 [d1, d2, d3, d4, d5, d6] = [d1, d2]"
    "slice 2 4 [d1, d2, d3, d4, d5, d6] = [d3, d4]"
    "slice 4 6 [d1, d2, d3, d4, d5, d6] = [d5, d6]"
    by (simp_all add: slice_def)
  show ?thesis
    unfolding strip sl
    using hex_digit_range [OF v(1)] hex_digit_range [OF v(2)] hex_digit_range [OF v(3)]
      hex_digit_range [OF v(4)] hex_digit_range [OF v(5)] hex_digit_range [OF v(6)]
    by (simp add: py_int16_two_digits [OF v(1) v(2)] py_int16_two_digits [OF v(3) v(4)]
        py_int16_two_digits [OF v(5) v(6)])
qed

text \<open>
  C9. For a well-formed hex color (\<^verbatim>\<open>#\<close> and six hexadecimal digits) the three channels
  parse, and when the name returned is \<^verbatim>\<open>golden/amber\<close> or \<^verbatim>\<open>brown/tan\<close> the red and
  the green channel are equal.
\<close>

theorem golden_brown_only_on_red_green_tie:
  assumes "is_hex_color s"
    and "hex_to_color_name s = ''golden/amber'' \<or> hex_to_color_name s = ''brown/tan''"
  shows "\<exists>r g b. py_int16 (slice 0 2 (lstrip ''#'' s)) = Some r
           \<and> py_int16 (slice 2 4 (lstrip ''#'' s)) = Some g
           \<and> py_int16 (slice 4 6 (lstrip ''#'' s)) = Some b
           \<and> r = g"
proof -
  from is_hex_color_channels [OF assms(1)] obtain r g b where
    c: "py_int16 (slice 0 2 (lstrip ''#'' s)) = Some r"
       "py_int16 (slice 2 4 (lstrip ''#'' s)) = Some g"
       "py_int16 (slice 4 6 (lstrip ''#'' s)) = Some b"
    by blast
  from hex_to_color_name_tie [OF c assms(2)] have "r = g" .
  with c show ?thesis by blast
qed

theorem golden_brown_only_on_red_green_tie_witness:
  "is_hex_color ''#FFFF00'' \<and> hex_to_color_name ''#FFFF00'' = ''golden/amber''
   \<and> (\<exists>r g b. py_int16 (slice 0 2 (lstrip ''#'' ''#FFFF00'')) = Some r
           \<and> py_int16 (slice 2 4 (lstrip ''#'' ''#FFFF00'')) = Some g
           \<and> py_int16 (slice 4 6 (lstrip ''#'' ''#FFFF00'')) = Some b
           \<and> r = g)"
proof -
  have h1: "is_hex_color ''#FFFF00''" by code_simp
  have h2: "hex_to_color_name ''#FFFF00'' = ''golden/amber''" by code_simp
  from golden_brown_only_on_red_green_tie [OF h1 disjI1 [OF h2]] h1 h2
  show ?thesis by blast
qed

section \<open>Properties of polling\<close>

lemma poll_loop_exit: "poll_loop get a k = Inl e \<Longrightarrow> e = SystemExit 1"
  by (induction k arbitrary: a) (auto simp: Let_def split: if_splits)

lemma poll_loop_transient:
  "\<not> is_ready (get a) \<Longrightarrow> \<not> is_error (get a) \<Longrightarrow>
     poll_loop get a (Suc k) = poll_loop get (a + 1) k"
  by (auto simp: is_ready_def is_error_def Let_def)

lemma poll_loop_ready:
  "is_ready (get a) \<Longrightarrow> poll_loop get a (Suc k) = Inr (json (get a))"
  by (auto simp: is_ready_def Let_def)

lemma poll_loop_error:
  "is_error (get a) \<Longrightarrow> poll_loop get a (Suc k) = Inl (SystemExit 1)"
  by (auto simp: is_error_def Let_def)

lemma ready_not_error: "is_ready x \<Longrightarrow> \<not> is_error x"
  by (auto simp: is_ready_def is_error_def)

lemma poll_loop_returns:
  "poll_loop get a k = Inr r \<longleftrightarrow>
     (\<exists>i. a \<le> i \<and> i < a + k \<and> is_ready (get i) \<and> r = json (get i) \<and>
          (\<forall>j. a \<le> j \<and> j < i \<longrightarrow> \<not> is_ready (get j) \<and> \<not> is_error (get j)))"
proof (induction k arbitrary: a)
  case 0
  show ?case by simp
next
  case (Suc k)
  consider (ready) "is_ready (get a)" | (error) "is_error (get a)"
    | (transient) "\<not> is_ready (get a)" "\<not> is_error (get a)"
    by blast
  then show ?case
  proof cases
    case ready
    have "(\<exists>i. a \<le> i \<and> i < a + Suc k \<and> is_ready (get i) \<and> r = json (get i) \<and>
          (\<forall>j. a \<le> j \<and> j < i \<longrightarrow> \<not> is_ready (get j) \<and> \<not> is_error (get j)))
        \<longleftrightarrow> r = json (get a)"
    proof
      assume "\<exists>i. a \<le> i \<and> i < a + Suc k \<and> is_ready (get i) \<and> r = json (get i) \<and>
          (\<forall>j. a \<le> j \<and> j < i \<longrightarrow> \<not> is_ready (get j) \<and> \<not> is_error (get j))"
      then obtain i where i: "a \<le> i" "r = json (get i)"
        "\<forall>j. a \<le> j \<and> j < i \<longrightarrow> \<not> is_ready (get j) \<and> \<not> is_error (get j)"
        by blast
      have "i = a"
      proof (rule ccontr)
        assume "i \<noteq> a"
        then have "a < i" using i(1) by simp
        then show False using i(3) ready by blast
      qed
      then show "r = json (get a)" using i(2) by simp
    next
      assume "r = json (get a)"
      then show "\<exists>i. a \<le> i \<and> i < a + Suc k \<and> is_ready (get i) \<and> r = json (get i) \<and>
          (\<forall>j. a \<le> j \<and> j < i \<longrightarrow> \<not> is_ready (get j) \<and> \<not> is_error (get j))"
        using ready by (intro exI [of _ a]) auto
    qed
    then show ?thesis
      unfolding poll_loop_ready [of get a, OF ready] by auto
  next
    case error
    have "\<not> (\<exists>i. a \<le> i \<and> i < a + Suc k \<and> is_ready (get i) \<and> r = json (get i) \<and>
          (\<forall>j. a \<le> j \<and> j < i \<longrightarrow> \<not> is_ready (get j) \<and> \<not> is_error (get j)))"
    proof
      assume "\<exists>i. a \<le> i \<and> i < a + Suc k \<and> is_ready (get i) \<and> r = json (get i) \<and>
          (\<forall>j. a \<le> j \<and> j < i \<longrightarrow> \<not> is_ready (get j) \<and> \<not> is_error (get j))"
      then obtain i where i: "a \<le> i" "is_ready (get i)"
        "\<forall>j. a \<le> j \<and> j < i \<longrightarrow> \<not> is_ready (get j) \<and> \<not> is_error (get j)"
        by blast
      show False
      proof (cases "i = a")
        case True
        then show False using i(2) error ready_not_error by blast
      next
        case False
        then have "a < i" using i(1) by simp
        then show False using i(3) error by blast
      qed
    qed
    then show ?thesis
      unfolding poll_loop_error [of get a, OF error] by simp
  next
    case transient
    have "(\<exists>i. a \<le> i \<and> i < a + Suc k \<and> is_ready (get i) \<and> r = json (get i) \<and>
          (\<forall>j. a \<le> j \<and> j < i \<longrightarrow> \<not> is_ready (get j) \<and> \<not> is_error (get j)))
        \<longleftrightarrow> (\<exists>i. a + 1 \<le> i \<and> i < a + 1 + k \<and> is_ready (get i) \<and> r = json (get i) \<and>
          (\<forall>j. a + 1 \<le> j \<and> j < i \<longrightarrow> \<not> is_ready (get j) \<and> \<not> is_error (get j)))"
      (is "?L \<longleftrightarrow> ?R")
    proof
      assume ?L
      then obtain i where i: "a \<le> i" "i < a + Suc k" "is_ready (get i)" "r = json (get i)"
        "\<forall>j. a \<le> j \<and> j < i \<longrightarrow> \<not> is_ready (get j) \<and> \<not> is_error (get j)"
        by blast
      have "i \<noteq> a" using i(3) transient(1) by blast
      then have "a + 1 \<le> i" using i(1) by simp
      moreover have "i < a + 1 + k" using i(2) by simp
      moreover have "\<forall>j. a + 1 \<le> j \<and> j < i \<longrightarrow> \<not> is_ready (get j) \<and> \<not> is_error (get j)"
        using i(5) by simp
      ultimately show ?R using i(3,4) by blast
    next
      assume ?R
      then obtain i where i: "a + 1 \<le> i" "i < a + 1 + k" "is_ready (get i)" "r = json (get i)"
        "\<forall>j. a + 1 \<le> j \<and> j < i \<longrightarrow> \<not> is_ready (get j) \<and> \<not> is_error (get j)"
        by blast
      have "\<forall>j. a \<le> j \<and> j < i \<longrightarrow> \<not> is_ready (get j) \<and> \<not> is_error (get j)"
      proof (intro allI impI)
        fix j assume j: "a \<le> j \<and> j < i"
        show "\<not> is_ready (get j) \<and> \<not> is_error (get j)"
        proof (cases "j = a")
          case True
          then show ?thesis using transient by simp
        next
          case False
          then have "a + 1 \<le> j" using j by simp
          then show ?thesis using i(5) j by blast
        qed
      qed
      moreover have "a \<le> i" "i < a + Suc k" using i(1,2) by simp_all
      ultimately show ?L using i(3,4) by blast
    qed
    then show ?thesis
      unfolding poll_loop_transient [of get a, OF transient] Suc.IH by simp
  qed
qed

lemma first_ready:
  fixes get :: "nat \<Rightarrow> poll_response"
  assumes "i < n" and "is_ready (get i)" and "\<forall>j<i. \<not> is_error (get j)"
  shows "\<exists>m<n. is_ready (get m) \<and> (\<forall>j<m. \<not> is_ready (get j) \<and> \<not> is_error (get j))"
proof -
  define m where "m = (LEAST x. is_ready (get x))"
  have r: "is_ready (get m)"
    unfolding m_def using assms(2) by (rule LeastI [where P = "\<lambda>x. is_ready (get x)"])
  have le: "m \<le> i"
    unfolding m_def using assms(2) by (rule Least_le [where P = "\<lambda>x. is_ready (get x)"])
  have "\<not> is_ready (get j)" if "j < m" for j
    using that not_less_Least [where P = "\<lambda>x. is_ready (get x)" and k = j]
    unfolding m_def by blast
  then show ?thesis
    using r le assms(1,3) by (intro exI [of _ m]) auto
qed

text \<open>
  C4. \<^verbatim>\<open>poll_for_result\<close> returns exactly when, among the first 120 responses, a
  \<^verbatim>\<open>Ready\<close> response comes before any \<^verbatim>\<open>Error\<close> response, and it then returns the
  decoded body of the first \<^verbatim>\<open>Ready\<close> response. In every other case (an \<^verbatim>\<open>Error\<close>
  response first, or 120 attempts used up) the process ends with exit status 1. A
  response that is neither \<^verbatim>\<open>Ready\<close> nor \<^verbatim>\<open>Error\<close> (a pending status, an unknown or
  missing status, or an HTTP status other than 200) uses up one attempt and the loop goes
  on with the next one.
\<close>

theorem poll_for_result_outcome:
  "((\<exists>r. poll_for_result get = Inr r) \<longleftrightarrow>
      (\<exists>i<120. is_ready (get i) \<and> (\<forall>j<i. \<not> is_error (get j))))
   \<and> (poll_for_result get = Inr r \<longleftrightarrow>
      (\<exists>i<120. is_ready (get i) \<and> r = json (get i) \<and>
         (\<forall>j<i. \<not> is_ready (get j) \<and> \<not> is_error (get j))))
   \<and> ((\<nexists>i. i < 120 \<and> is_ready (get i) \<and> (\<forall>j<i. \<not> is_error (get j))) \<longleftrightarrow>
        poll_for_result get = Inl (SystemExit 1))
   \<and> (\<forall>a k. \<not> is_ready (get a) \<and> \<not> is_error (get a) \<longrightarrow>
        poll_loop get a (Suc k) = poll_loop get (a + 1) k)"
proof -
  have ret: "poll_for_result get = Inr x \<longleftrightarrow>
      (\<exists>i<120. is_ready (get i) \<and> x = json (get i) \<and>
         (\<forall>j<i. \<not> is_ready (get j) \<and> \<not> is_error (get j)))" for x
    unfolding poll_for_result_def MAX_POLL_ATTEMPTS_def poll_loop_returns by simp
  have ex: "(\<exists>x. poll_for_result get = Inr x) \<longleftrightarrow>
      (\<exists>i<120. is_ready (get i) \<and> (\<forall>j<i. \<not> is_error (get j)))"
  proof
    assume "\<exists>x. poll_for_result get = Inr x"
    then show "\<exists>i<120. is_ready (get i) \<and> (\<forall>j<i. \<not> is_error (get j))"
      unfolding ret by blast
  next
    assume "\<exists>i<120. is_ready (get i) \<and> (\<forall>j<i. \<not> is_error (get j))"
    then obtain i where "i < 120" "is_ready (get i)" "\<forall>j<i. \<not> is_error (get j)"
      by blast
    from first_ready [OF this] show "\<exists>x. poll_for_result get = Inr x"
      unfolding ret by blast
  qed
  have fail: "(\<nexists>i. i < 120 \<and> is_ready (get i) \<and> (\<forall>j<i. \<not> is_error (get j))) \<longleftrightarrow>
        poll_for_result get = Inl (SystemExit 1)"
  proof -
    have "poll_for_result get = Inl (SystemExit 1) \<longleftrightarrow> \<not> (\<exists>x. poll_for_result get = Inr x)"
    proof (cases "poll_for_result get")
      case (Inl e)
      then have "e = SystemExit 1"
        unfolding poll_for_result_def by (rule poll_loop_exit)
      then show ?thesis using Inl by simp
    next
      case (Inr x)
      then show ?thesis by simp
    qed
    then show ?thesis using ex by auto
  qed
  show ?thesis
    using ret ex fail poll_loop_transient by blast
qed

theorem poll_for_result_outcome_witness:
  "poll_for_result
     (\<lambda>n. \<lparr>status_code = 200,
            json = \<lparr>status = Some (if n < 2 then ''Processing'' else ''Ready''),
                    error_text = None, sample = Some ''https://x/y.png''\<rparr>\<rparr>)
   = Inr \<lparr>status = Some ''Ready'', error_text = None, sample = Some ''https://x/y.png''\<rparr>"
proof -
  let ?get = "\<lambda>n::nat. \<lparr>status_code = 200,
            json = \<lparr>status = Some (if n < 2 then ''Processing'' else ''Ready''),
                    error_text = None, sample = Some ''https://x/y.png''\<rparr>\<rparr>"
  have "\<exists>i<120. is_ready (?get i) \<and>
          \<lparr>status = Some ''Ready'', error_text = None, sample = Some ''https://x/y.png''\<rparr>
            = json (?get i) \<and>
          (\<forall>j<i. \<not> is_ready (?get j) \<and> \<not> is_error (?get j))"
    by (intro exI [of _ 2]) (simp add: is_ready_def is_error_def)
  then show ?thesis
    using poll_for_result_outcome [of ?get] by blast
qed

section \<open>Properties of image encoding\<close>

lemma lower_PNG: "lower ''.PNG'' = ''.png''"
  by code_simp

lemma lower_bmp: "lower ''.bmp'' = ''.bmp''"
  by code_simp

text \<open>
  C10. For a path whose file can be read, the data URL carries the MIME type
  \<^verbatim>\<open>image/jpeg\<close> whenever the lower-cased suffix is none of \<^verbatim>\<open>.jpg\<close>, \<^verbatim>\<open>.jpeg\<close>,
  \<^verbatim>\<open>.png\<close>, \<^verbatim>\<open>.webp\<close>, \<^verbatim>\<open>.gif\<close>, and the mapped type for each of these five.
\<close>

theorem encode_image_mime_type:
  assumes "fs (path_text image_path) = Some bytes"
  shows "(lower (suffix image_path) \<notin> {''.jpg'', ''.jpeg'', ''.png'', ''.webp'', ''.gif''} \<longrightarrow>
            encode_image_to_base64 fs image_path
              = Inr (''data:image/jpeg;base64,'' @ b64encode bytes))
       \<and> (lower (suffix image_path) = ''.jpg'' \<longrightarrow>
            encode_image_to_base64 fs image_path
              = Inr (''data:image/jpeg;base64,'' @ b64encode bytes))
       \<and> (lower (suffix image_path) = ''.jpeg'' \<longrightarrow>
            encode_image_to_base64 fs image_path
              = Inr (''data:image/jpeg;base64,'' @ b64encode bytes))
       \<and> (lower (suffix image_path) = ''.png'' \<longrightarrow>
            encode_image_to_base64 fs image_path
              = Inr (''data:image/png;base64,'' @ b64encode bytes))
       \<and> (lower (suffix image_path) = ''.webp'' \<longrightarrow>
            encode_image_to_base64 fs image_path
              = Inr (''data:image/webp;base64,'' @ b64encode bytes))
       \<and> (lower (suffix image_path) = ''.gif'' \<longrightarrow>
            encode_image_to_base64 fs image_path
              = Inr (''data:image/gif;base64,'' @ b64encode bytes))"
  using assms
  by (simp add: encode_image_to_base64_def mime_types_def)

theorem encode_image_mime_type_witness:
  "encode_image_to_base64 (\<lambda>p. if p = ''input.PNG'' then Some [77, 97] else None)
       \<lparr>path_text = ''input.PNG'', suffix = ''.PNG''\<rparr>
     = Inr (''data:image/png;base64,'' @ b64encode [77, 97])
   \<and> encode_image_to_base64 (\<lambda>p. if p = ''scan.bmp'' then Some [77, 97] else None)
       \<lparr>path_text = ''scan.bmp'', suffix = ''.bmp''\<rparr>
     = Inr (''data:image/jpeg;base64,'' @ b64encode [77, 97])"
proof -
  let ?fs1 = "\<lambda>p. if p = ''input.PNG'' then Some [77, 97 :: byte] else None"
  let ?p1 = "\<lparr>path_text = ''input.PNG'', suffix = ''.PNG''\<rparr>"
  let ?fs2 = "\<lambda>p. if p = ''scan.bmp'' then Some [77, 97 :: byte] else None"
  let ?p2 = "\<lparr>path_text = ''scan.bmp'', suffix = ''.bmp''\<rparr>"
  have f1: "?fs1 (path_text ?p1) = Some [77, 97]" by simp
  have f2: "?fs2 (path_text ?p2) = Some [77, 97]" by simp
  have s1: "lower (suffix ?p1) = ''.png''" by (simp add: lower_PNG)
  have s2: "lower (suffix ?p2) \<notin> {''.jpg'', ''.jpeg'', ''.png'', ''.webp'', ''.gif''}"
    by (simp add: lower_bmp)
  from encode_image_mime_type [of ?fs1 ?p1 "[77, 97]", OF f1] s1
  have r1: "encode_image_to_base64 ?fs1 ?p1 = Inr (''data:image/png;base64,'' @ b64encode [77, 97])"
    by blast
  from encode_image_mime_type [of ?fs2 ?p2 "[77, 97]", OF f2] s2
  have r2: "encode_image_to_base64 ?fs2 ?p2 = Inr (''data:image/jpeg;base64,'' @ b64encode [77, 97])"
    by blast
  from r1 r2 show ?thesis by (rule conjI)
qed

end
